theory Spec2Isabelle
  imports Complex_Main "HOL-Library.Sublist"
begin

section \<open>Data model of \<^verbatim>\<open>scripts/generate_svg.py\<close>\<close>

text \<open>
  The chart builder works on a list of dictionaries with the two keys \<^verbatim>\<open>date\<close> and
  \<^verbatim>\<open>count\<close>. A dictionary with exactly these keys is a record; the date is the ISO
  string the data source delivers, the count a Python integer (unbounded, so \<open>int\<close>).

  Python's \<^verbatim>\<open>float\<close> is modelled by \<open>real\<close>: true division, \<^verbatim>\<open>math.log1p\<close> and the
  mixed integer/float arithmetic are the exact operations, so rounding to binary64 and
  the overflow of integers beyond the float range are outside the model. Strings are
  byte lists; the non-ASCII characters of the subtitle are written as their UTF-8 bytes.
\<close>

datatype py_error = ZeroDivisionError | ValueError | IndexError

record sample =
  date :: string
  count :: int

record pydate =
  year :: nat
  month :: nat
  day :: nat

text \<open>
  Two functions of the standard library are used by the builder and are not part of the
  repository: \<^verbatim>\<open>datetime.date.fromisoformat\<close> (which raises \<^verbatim>\<open>ValueError\<close> on a string
  it does not accept) and the formatting of a float with two decimals (\<^verbatim>\<open>f"{x:.2f}"\<close>).
  The model takes them as a parameter, so that every theorem holds for whatever the
  library does; \<open>cpython\<close> below is a concrete instance for evaluation.
\<close>

record pylib =
  fromisoformat :: "string \<Rightarrow> py_error + pydate"
  format_2f :: "real \<Rightarrow> string"

definition BG :: string where
  "BG = ''#1e1e1e''"

definition STROKE :: string where
  "STROKE = ''#E65729''"

definition TEXT :: string where
  "TEXT = ''#ffffff''"

section \<open>Formatting helpers of the language\<close>

text \<open>\<^verbatim>\<open>f"{i}"\<close> for an integer: its decimal digits, with a leading minus sign.\<close>

fun digits :: "nat \<Rightarrow> string" where
  "digits n = (if n < 10 then [''0123456789'' ! n]
               else digits (n div 10) @ [''0123456789'' ! (n mod 10)])"

declare digits.simps [simp del]

definition str_int :: "int \<Rightarrow> string" where
  "str_int i = (if i < 0 then CHR ''-'' # digits (nat (- i)) else digits (nat i))"

text \<open>\<^verbatim>\<open>sep.join(parts)\<close>.\<close>

fun join :: "string \<Rightarrow> string list \<Rightarrow> string" where
  "join sep [] = []"
| "join sep [s] = s"
| "join sep (s # t # ss) = s @ sep @ join sep (t # ss)"

text \<open>
  A list comprehension or loop whose body may raise: the elements are evaluated from
  left to right and the first exception ends the evaluation.
\<close>

fun collect :: "('e + 'a) list \<Rightarrow> 'e + 'a list" where
  "collect [] = Inr []"
| "collect (r # rs) =
     (case r of
        Inl e \<Rightarrow> Inl e
      | Inr v \<Rightarrow> (case collect rs of Inl e \<Rightarrow> Inl e | Inr vs \<Rightarrow> Inr (v # vs)))"

text \<open>\<^verbatim>\<open>a / b\<close> on integers: true division, raising on a zero divisor.\<close>

definition py_truediv :: "int \<Rightarrow> int \<Rightarrow> py_error + real" where
  "py_truediv a b = (if b = 0 then Inl ZeroDivisionError else Inr (real_of_int a / real_of_int b))"

text \<open>\<^verbatim>\<open>xs[idx]\<close> with a non-negative index.\<close>

definition py_index :: "'a list \<Rightarrow> nat \<Rightarrow> py_error + 'a" where
  "py_index xs idx = (if idx < length xs then Inr (xs ! idx) else Inl IndexError)"

text \<open>\<^verbatim>\<open>date_obj.strftime("%b")\<close> in the C locale, which the script never changes.\<close>

definition strftime_b :: "pydate \<Rightarrow> string" where
  "strftime_b d =
     (if month d = 1 then ''Jan'' else if month d = 2 then ''Feb''
      else if month d = 3 then ''Mar'' else if month d = 4 then ''Apr''
      else if month d = 5 then ''May'' else if month d = 6 then ''Jun''
      else if month d = 7 then ''Jul'' else if month d = 8 then ''Aug''
      else if month d = 9 then ''Sep'' else if month d = 10 then ''Oct''
      else if month d = 11 then ''Nov'' else ''Dec'')"

section \<open>The scaler: \<^verbatim>\<open>y_for_count\<close>\<close>

text \<open>
  \<^verbatim>\<open>max_c = max(counts) if counts else 1\<close>: the maximum of the list from left to right,
  and 1 for the empty list.
\<close>

definition max_c_of :: "int list \<Rightarrow> int" where
  "max_c_of counts = (case counts of [] \<Rightarrow> 1 | c # cs \<Rightarrow> foldl max c cs)"

text \<open>
  The value bound to \<^verbatim>\<open>norm\<close> in \<^verbatim>\<open>y_for_count\<close>. \<^verbatim>\<open>math.log1p(c)\<close> raises
  \<^verbatim>\<open>ValueError\<close> for \<open>c \<le> -1\<close>; the divisor \<^verbatim>\<open>math.log1p(max_c)\<close> is positive in that
  branch. In the other branch the test \<^verbatim>\<open>if max_c\<close> is the test for a non-zero value.
\<close>

definition norm_for_count :: "int \<Rightarrow> int \<Rightarrow> py_error + real" where
  "norm_for_count max_c c =
     (if max_c > 20 then
        (if c \<le> - 1 then Inl ValueError
         else Inr (ln (1 + real_of_int c) / ln (1 + real_of_int max_c)))
      else Inr (if max_c \<noteq> 0 then real_of_int c / real_of_int max_c else 0))"

definition y_for_count :: "int \<Rightarrow> int \<Rightarrow> int \<Rightarrow> int \<Rightarrow> py_error + real" where
  "y_for_count padding inner_h max_c c =
     (case norm_for_count max_c c of
        Inl e \<Rightarrow> Inl e
      | Inr nrm \<Rightarrow> Inr (real_of_int padding + (1 - nrm) * real_of_int inner_h))"

text \<open>
  The normalisation as the specification words it, with its three cases; it is compared
  with the code's \<open>norm_for_count\<close> below.
\<close>

definition spec_norm :: "int \<Rightarrow> int \<Rightarrow> real" where
  "spec_norm maxCount c =
     (if maxCount > 20 then ln (1 + real_of_int c) / ln (1 + real_of_int maxCount)
      else if 0 < maxCount \<and> maxCount \<le> 20 then real_of_int c / real_of_int maxCount
      else 0)"

text \<open>The vertical extent of the plotting rectangle.\<close>

definition within_plot_height :: "int \<Rightarrow> int \<Rightarrow> real \<Rightarrow> bool" where
  "within_plot_height padding height y =
     (real_of_int padding \<le> y \<and> y \<le> real_of_int (height - padding))"

section \<open>Horizontal layout\<close>

text \<open>
  \<^verbatim>\<open>xs = [padding + (i / (n - 1)) * inner_w for i in range(n)]\<close>: the division is
  evaluated for every index, so a zero divisor raises at the first one. The three
  operations are the exact ones; the code rounds each of them to binary64. Rounding
  keeps the order of two values but may make them equal, and it leaves an integer of
  magnitude at most \<open>2 ^ 53\<close> unchanged, so of this list only what rounding preserves is
  stated below: the ends, on integers binary64 represents exactly, and the order
  without strictness.
\<close>

definition x_positions :: "int \<Rightarrow> int \<Rightarrow> nat \<Rightarrow> py_error + real list" where
  "x_positions padding inner_w n =
     collect (map (\<lambda>i. case py_truediv (int i) (int n - 1) of
                          Inl e \<Rightarrow> Inl e
                        | Inr q \<Rightarrow> Inr (real_of_int padding + q * real_of_int inner_w))
                  [0..<n])"


section \<open>Month labels: \<^verbatim>\<open>_month_labels\<close>\<close>

text \<open>
  The loop over \<^verbatim>\<open>enumerate(days)\<close>, with the index and the list of labels built so far
  as arguments; a date that does not parse raises out of the loop.
\<close>

fun month_labels_loop ::
  "pylib \<Rightarrow> nat \<Rightarrow> sample list \<Rightarrow> (nat \<times> string) list \<Rightarrow> py_error + (nat \<times> string) list" where
  "month_labels_loop L i [] labels = Inr labels"
| "month_labels_loop L i (d # ds) labels =
     (case fromisoformat L (date d) of
        Inl e \<Rightarrow> Inl e
      | Inr date_obj \<Rightarrow>
          month_labels_loop L (Suc i) ds
            (if day date_obj = 1 \<and> month date_obj \<in> {1, 4, 7, 10}
             then labels @ [(i, strftime_b date_obj)] else labels))"

definition month_labels :: "pylib \<Rightarrow> sample list \<Rightarrow> py_error + (nat \<times> string) list" where
  "month_labels L days = month_labels_loop L 0 days []"

text \<open>
  The calendar, to speak of a full calendar year: the dates of year \<open>y\<close> from the first
  of January to the last of December.
\<close>

definition is_leap :: "nat \<Rightarrow> bool" where
  "is_leap y = (y mod 4 = 0 \<and> (y mod 100 \<noteq> 0 \<or> y mod 400 = 0))"

definition days_in_month :: "nat \<Rightarrow> nat \<Rightarrow> nat" where
  "days_in_month y m =
     (if m = 2 then (if is_leap y then 29 else 28)
      else if m = 4 \<or> m = 6 \<or> m = 9 \<or> m = 11 then 30 else 31)"

definition month_dates :: "nat \<Rightarrow> nat \<Rightarrow> pydate list" where
  "month_dates y m = map (\<lambda>d. \<lparr>year = y, month = m, day = d\<rparr>) [1..<Suc (days_in_month y m)]"

definition year_dates :: "nat \<Rightarrow> pydate list" where
  "year_dates y = concat (map (month_dates y) [1..<13])"

text \<open>The condition of line 83, on a date.\<close>

definition quarter_start :: "pydate \<Rightarrow> bool" where
  "quarter_start d = (day d = 1 \<and> (month d = 1 \<or> month d = 4 \<or> month d = 7 \<or> month d = 10))"

section \<open>The chart builder: \<^verbatim>\<open>build_svg\<close>\<close>

text \<open>The path data of lines 121 to 124: \<^verbatim>\<open>M\<close> before the first point, \<^verbatim>\<open>L\<close> before the others.\<close>

definition path_d :: "pylib \<Rightarrow> real list \<Rightarrow> real list \<Rightarrow> string" where
  "path_d L xs ys =
     concat (map (\<lambda>(i, (x, y)). (if i = 0 then ''M'' else ''L'') @ format_2f L x @ '','' @ format_2f L y)
                 (enumerate 0 (zip xs ys)))"

text \<open>One gridline of the loop of lines 130 to 135.\<close>

definition grid_line :: "pylib \<Rightarrow> int \<Rightarrow> int \<Rightarrow> int \<Rightarrow> string \<Rightarrow> nat \<Rightarrow> string" where
  \<open>grid_line L width padding inner_h text i =
     (let y = real_of_int padding + (real i / 5) * real_of_int inner_h
      in ''<line x1="'' @ str_int padding @ ''" y1="'' @ format_2f L y
         @ ''" x2="'' @ str_int (width - padding) @ ''" y2="'' @ format_2f L y @ ''" ''
         @ ''stroke="'' @ text @ ''" stroke-opacity="0.08" stroke-width="1" />'')\<close>

text \<open>One month label of the loop of lines 163 to 170; \<^verbatim>\<open>xs[idx]\<close> may raise.\<close>

definition month_text ::
  "pylib \<Rightarrow> int \<Rightarrow> int \<Rightarrow> string \<Rightarrow> real list \<Rightarrow> nat \<times> string \<Rightarrow> py_error + string" where
  \<open>month_text L height padding text xs il =
     (case py_index xs (fst il) of
        Inl e \<Rightarrow> Inl e
      | Inr x \<Rightarrow>
          Inr (''<text x="'' @ format_2f L x @ ''" y="'' @ str_int (height - padding + 24)
               @ ''" fill="'' @ text @ ''" ''
               @ ''font-family="Space Grotesk, Orbitron, Rajdhani, Arial, sans-serif" ''
               @ ''font-size="11" text-anchor="middle" opacity="0.9">''
               @ snd il @ ''</text>''))\<close>

text \<open>The document returned for the empty series, lines 98 to 102.\<close>

definition empty_svg :: "int \<Rightarrow> int \<Rightarrow> string \<Rightarrow> string" where
  \<open>empty_svg width height bg =
     ''<svg xmlns="http://www.w3.org/2000/svg" width="'' @ str_int width
     @ ''" height="'' @ str_int height @ ''">''
     @ ''<rect width="100%" height="100%" fill="'' @ bg @ ''"/>''
     @ ''</svg>''\<close>

text \<open>The first element of the list \<^verbatim>\<open>svg\<close>, lines 138 and 139.\<close>

definition svg_open :: "int \<Rightarrow> int \<Rightarrow> string" where
  \<open>svg_open width height =
     ''<svg xmlns="http://www.w3.org/2000/svg" width="'' @ str_int width
     @ ''" height="'' @ str_int height @ ''" ''
     @ ''viewBox="0 0 '' @ str_int width @ '' '' @ str_int height
     @ ''" role="img" aria-label="GitHub contributions line chart">''\<close>

text \<open>
  The elements of the list \<^verbatim>\<open>svg\<close> between the opening tag and the gridlines, lines 140
  to 155. The three characters between the year and the total are the ones of the source
  file, as UTF-8 bytes; \<^verbatim>\<open>[:4]\<close> takes the first four characters of the first date.
\<close>

definition svg_head :: "int \<Rightarrow> string \<Rightarrow> string \<Rightarrow> string \<Rightarrow> int \<Rightarrow> string list" where
  \<open>svg_head padding bg text date0 total_sum =
     [''<rect width="100%" height="100%" fill="'' @ bg @ ''" rx="14" ry="14"/>'',
      ''<defs>'',
      ''<filter id="glow" x="-50%" y="-50%" width="200%" height="200%">'',
      ''<feGaussianBlur stdDeviation="3" result="coloredBlur"/>'',
      ''<feMerge>'',
      ''<feMergeNode in="coloredBlur"/>'',
      ''<feMergeNode in="SourceGraphic"/>'',
      ''</feMerge>'',
      ''</filter>'',
      ''</defs>'',
      ''<text x="'' @ str_int padding @ ''" y="'' @ str_int (padding - 16)
        @ ''" fill="'' @ text @ ''" ''
        @ ''font-family="Space Grotesk, Orbitron, Rajdhani, Arial, sans-serif" ''
        @ ''font-size="20" font-weight="700">GitHub Contributions</text>'',
      ''<text x="'' @ str_int padding @ ''" y="'' @ str_int (padding + 6)
        @ ''" fill="'' @ text @ ''" ''
        @ ''font-family="Space Grotesk, Orbitron, Rajdhani, Arial, sans-serif" ''
        @ ''font-size="12" opacity="0.8">Year '' @ take 4 date0 @ '' ''
        @ [CHR 0xC3, CHR 0xA2, CHR 0xE2, CHR 0x82, CHR 0xAC, CHR 0xC2, CHR 0xA2]
        @ '' Total '' @ str_int total_sum @ ''</text>'']\<close>

text \<open>The two path elements, lines 157 to 160.\<close>

definition svg_paths :: "string \<Rightarrow> string \<Rightarrow> string list" where
  \<open>svg_paths path stroke =
     [''<path d="'' @ path @ ''" fill="none" stroke="'' @ stroke @ ''" stroke-width="2.6" ''
        @ ''stroke-linejoin="round" stroke-linecap="round" filter="url(#glow)"/>'',
      ''<path d="'' @ path @ ''" fill="none" stroke="'' @ stroke @ ''" stroke-width="1.4" ''
        @ ''stroke-linejoin="round" stroke-linecap="round"/>'']\<close>

text \<open>The annotation of the maximum, lines 172 to 176.\<close>

definition max_text :: "int \<Rightarrow> int \<Rightarrow> string \<Rightarrow> int \<Rightarrow> string" where
  \<open>max_text width padding text max_c =
     ''<text x="'' @ str_int (width - padding) @ ''" y="'' @ str_int (padding - 10)
     @ ''" fill="'' @ text @ ''" ''
     @ ''font-family="Space Grotesk, Orbitron, Rajdhani, Arial, sans-serif" ''
     @ ''font-size="11" text-anchor="end" opacity="0.8">max: '' @ str_int max_c @ ''</text>''\<close>

text \<open>
  \<^verbatim>\<open>build_svg\<close>, in the order of the source: the shortcut for the empty series, then
  \<^verbatim>\<open>xs\<close>, \<^verbatim>\<open>ys\<close>, the path, the labels, the gridlines, the list \<^verbatim>\<open>svg\<close> and its join.
  The first exception raised is the result.
\<close>

definition build_svg ::
  "pylib \<Rightarrow> sample list \<Rightarrow> int \<Rightarrow> int \<Rightarrow> int \<Rightarrow> string \<Rightarrow> string \<Rightarrow> string \<Rightarrow> py_error + string" where
  "build_svg L days width height padding bg stroke text =
     (case days of
        [] \<Rightarrow> Inr (empty_svg width height bg)
      | d0 # _ \<Rightarrow>
          (let inner_w = width - padding * 2;
               inner_h = height - padding * 2;
               counts = map count days;
               max_c = max_c_of counts;
               total_sum = sum_list counts;
               n = length days
           in case x_positions padding inner_w n of
                Inl e \<Rightarrow> Inl e
              | Inr xs \<Rightarrow>
                  (case collect (map (y_for_count padding inner_h max_c) counts) of
                     Inl e \<Rightarrow> Inl e
                   | Inr ys \<Rightarrow>
                       (let path = path_d L xs ys
                        in case month_labels L days of
                             Inl e \<Rightarrow> Inl e
                           | Inr labels \<Rightarrow>
                               (let grid = map (grid_line L width padding inner_h text) [0..<6]
                                in case collect (map (month_text L height padding text xs) labels) of
                                     Inl e \<Rightarrow> Inl e
                                   | Inr label_texts \<Rightarrow>
                                       Inr (join [CHR 0x0A]
                                              ([svg_open width height]
                                               @ svg_head padding bg text (date d0) total_sum
                                               @ grid
                                               @ svg_paths path stroke
                                               @ label_texts
                                               @ [max_text width padding text max_c, ''</svg>''])))))))"

text \<open>The call of \<^verbatim>\<open>main\<close>: every optional argument at its default.\<close>

definition build_svg_default :: "pylib \<Rightarrow> sample list \<Rightarrow> py_error + string" where
  "build_svg_default L days = build_svg L days 1200 360 52 BG STROKE TEXT"

section \<open>A concrete instance of the library\<close>

text \<open>
  The parser on the extended format \<^verbatim>\<open>YYYY-MM-DD\<close>, which is what the data source
  delivers: ten characters, digits around two hyphens, a month from 1 to 12 and a day
  that exists in that month; anything else raises \<^verbatim>\<open>ValueError\<close>.
\<close>

definition is_digit :: "char \<Rightarrow> bool" where
  "is_digit c = (48 \<le> (of_char c :: nat) \<and> (of_char c :: nat) \<le> 57)"

definition number_of_digits :: "string \<Rightarrow> nat" where
  "number_of_digits s = foldl (\<lambda>a c. 10 * a + ((of_char c :: nat) - 48)) 0 s"

definition iso_date :: "string \<Rightarrow> py_error + pydate" where
  "iso_date s =
     (if length s = 10 \<and> s ! 4 = CHR ''-'' \<and> s ! 7 = CHR ''-''
         \<and> list_all is_digit (take 4 s @ take 2 (drop 5 s) @ take 2 (drop 8 s))
      then (let y = number_of_digits (take 4 s);
                m = number_of_digits (take 2 (drop 5 s));
                d = number_of_digits (take 2 (drop 8 s))
            in if 1 \<le> y \<and> 1 \<le> m \<and> m \<le> 12 \<and> 1 \<le> d \<and> d \<le> days_in_month y m
               then Inr \<lparr>year = y, month = m, day = d\<rparr>
               else Inl ValueError)
      else Inl ValueError)"

text \<open>
  Two decimals of a real: the nearest multiple of one hundredth, ties to the even one,
  with the sign of the value.
\<close>

definition round_half_even :: "real \<Rightarrow> int" where
  "round_half_even r =
     (let f = \<lfloor>r\<rfloor>; d = r - of_int f
      in if d < 1 / 2 then f else if 1 / 2 < d then f + 1 else if even f then f else f + 1)"

definition fmt_2f :: "real \<Rightarrow> string" where
  "fmt_2f x =
     (let k = nat (round_half_even (\<bar>x\<bar> * 100))
      in (if x < 0 then ''-'' else [])
         @ digits (k div 100) @ ''.'' @ digits (k mod 100 div 10) @ digits (k mod 10))"

definition cpython :: pylib where
  "cpython = \<lparr>fromisoformat = iso_date, format_2f = fmt_2f\<rparr>"

section \<open>Auxiliary definitions for the statements\<close>

text \<open>
  The labels of a list of parsed dates, written as a comprehension over the enumerated
  dates: the closed form of the loop of \<^verbatim>\<open>_month_labels\<close>.
\<close>

definition labels_of :: "nat \<Rightarrow> pydate list \<Rightarrow> (nat \<times> string) list" where
  "labels_of i dts =
     map (\<lambda>(j, d). (j, strftime_b d)) (filter (\<lambda>(j, d). quarter_start d) (enumerate i dts))"

text \<open>
  \<^verbatim>\<open>date.isoformat()\<close>, the string \<^verbatim>\<open>YYYY-MM-DD\<close> the data source delivers for a date.
\<close>

definition iso_format :: "pydate \<Rightarrow> string" where
  "iso_format d =
     [''0123456789'' ! (year d div 1000 mod 10), ''0123456789'' ! (year d div 100 mod 10),
      ''0123456789'' ! (year d div 10 mod 10), ''0123456789'' ! (year d mod 10), CHR ''-'',
      ''0123456789'' ! (month d div 10 mod 10), ''0123456789'' ! (month d mod 10), CHR ''-'',
      ''0123456789'' ! (day d div 10 mod 10), ''0123456789'' ! (day d mod 10)]"

section \<open>The maximum of the series\<close>

lemma foldl_max_Max: "foldl max a cs = Max (insert a (set cs))"
proof (induction cs arbitrary: a)
  case Nil
  show ?case by simp
next
  case (Cons c cs)
  have "Max (insert (max a c) (set cs)) = Max (insert a (insert c (set cs)))"
    by (cases "set cs = {}") (simp_all add: Max_insert max.assoc)
  with Cons show ?case by simp
qed

lemma max_c_of_Max: "counts \<noteq> [] \<Longrightarrow> max_c_of counts = Max (set counts)"
  by (cases counts) (simp_all add: max_c_of_def foldl_max_Max)

lemma max_c_of_ge: "c \<in> set counts \<Longrightarrow> c \<le> max_c_of counts"
  by (cases "counts = []") (simp_all add: max_c_of_Max)

lemma max_c_of_mem: "counts \<noteq> [] \<Longrightarrow> max_c_of counts \<in> set counts"
  using Max_in [of "set counts"] by (simp add: max_c_of_Max)

section \<open>Properties of the scaler\<close>

lemma norm_log_range:
  assumes "20 < m" "0 \<le> c" "c \<le> m"
  shows "0 \<le> ln (1 + real_of_int c) / ln (1 + real_of_int m)"
    and "ln (1 + real_of_int c) / ln (1 + real_of_int m) \<le> 1"
proof -
  have pos: "0 < ln (1 + real_of_int m)" using assms by simp
  have nn: "0 \<le> ln (1 + real_of_int c)" using assms by simp
  have le: "ln (1 + real_of_int c) \<le> ln (1 + real_of_int m)" using assms by simp
  show "0 \<le> ln (1 + real_of_int c) / ln (1 + real_of_int m)" using pos nn by simp
  show "ln (1 + real_of_int c) / ln (1 + real_of_int m) \<le> 1" using pos le by simp
qed

text \<open>
  Claim C1. For a non-empty series of samples (counts that are not negative) whose
  maximum count is \<open>maxCount\<close>, the vertical position computed for a sample with count
  \<open>c\<close> is \<open>padding + (1 - norm) * innerHeight\<close>, where \<open>norm\<close> is the normalisation of the
  specification: \<open>ln (1 + c) / ln (1 + maxCount)\<close> when \<open>maxCount > 20\<close>, \<open>c / maxCount\<close>
  when \<open>0 < maxCount \<le> 20\<close>, and \<open>0\<close> when \<open>maxCount = 0\<close>. The maximum the code
  computes is the maximum of the series, and no exception is raised.
\<close>

theorem y_for_count_spec:
  assumes "counts \<noteq> []" and "\<forall>c\<in>set counts. 0 \<le> c" and "c \<in> set counts"
  shows "y_for_count padding (height - padding * 2) (max_c_of counts) c =
         Inr (real_of_int padding
              + (1 - spec_norm (Max (set counts)) c) * real_of_int (height - padding * 2))"
proof -
  have m: "max_c_of counts = Max (set counts)" using assms(1) by (rule max_c_of_Max)
  have "0 \<le> c" using assms by blast
  moreover have "0 \<le> Max (set counts)"
    using assms(2) max_c_of_mem [OF assms(1)] m by simp
  ultimately show ?thesis
    unfolding m by (simp add: y_for_count_def norm_for_count_def spec_norm_def)
qed

theorem y_for_count_spec_witness:
  "[5, 10, 20] \<noteq> ([] :: int list) \<and> (10::int) \<in> set [5, 10, 20]
   \<and> y_for_count 52 (360 - 52 * 2) (max_c_of [5, 10, 20]) 10 = Inr 180"
  using y_for_count_spec [of "[5, 10, 20]" 10 52 360] by (simp add: spec_norm_def)

text \<open>
  Claim C6. For a series whose maximum count exceeds 20, the normalised value computed
  for the maximum count is exactly 1 and the one computed for the count 0 is exactly 0.
\<close>

theorem norm_log_endpoints:
  assumes "20 < max_c_of counts"
  shows "norm_for_count (max_c_of counts) (max_c_of counts) = Inr 1
         \<and> norm_for_count (max_c_of counts) 0 = Inr 0"
  using assms by (simp add: norm_for_count_def)

theorem norm_log_endpoints_witness:
  "20 < max_c_of [0, 100, 3] \<and> norm_for_count (max_c_of [0, 100, 3]) 100 = Inr 1
   \<and> norm_for_count (max_c_of [0, 100, 3]) 0 = Inr 0"
  using norm_log_endpoints [of "[0, 100, 3]"] by (simp add: max_c_of_def)

text \<open>
  Claim C7. For a series whose maximum count lies in \<open>1..20\<close>, the normalisation is
  linear, \<open>count / maxCount\<close>, and strictly monotonic: of two counts
  \<open>count1 < count2\<close>, the first has the smaller normalised value.
\<close>

theorem norm_linear_strict_mono:
  assumes "0 < max_c_of counts" and "max_c_of counts \<le> 20" and "count1 < count2"
  shows "\<exists>norm1 norm2.
           norm_for_count (max_c_of counts) count1 = Inr norm1
           \<and> norm_for_count (max_c_of counts) count2 = Inr norm2
           \<and> norm1 = real_of_int count1 / real_of_int (max_c_of counts)
           \<and> norm2 = real_of_int count2 / real_of_int (max_c_of counts)
           \<and> norm1 < norm2"
  using assms by (simp add: norm_for_count_def divide_strict_right_mono)

theorem norm_linear_strict_mono_witness:
  "0 < max_c_of [5, 10, 20] \<and> max_c_of [5, 10, 20] \<le> 20 \<and> (5::int) < 10
   \<and> (\<exists>norm1 norm2.
          norm_for_count (max_c_of [5, 10, 20]) 5 = Inr norm1
          \<and> norm_for_count (max_c_of [5, 10, 20]) 10 = Inr norm2
          \<and> norm1 = 1 / 4 \<and> norm2 = 1 / 2 \<and> norm1 < norm2)"
  using norm_linear_strict_mono [of "[5, 10, 20]" 5 10] by (simp add: max_c_of_def)

text \<open>
  Claim C10, as stated, fails: with a height smaller than twice the padding the
  plotting rectangle is inverted. For height 0, padding 10 and the series of counts
  0 and 1, the sample with count 1 is placed at \<open>y = 10\<close>, which is not at most
  \<open>height - padding = -10\<close>.
\<close>

theorem y_outside_plot_counterexample:
  "y_for_count 10 (0 - 10 * 2) (max_c_of [0, 1]) 1 = Inr 10 \<and> \<not> within_plot_height 10 0 10"
  by (simp add: y_for_count_def norm_for_count_def max_c_of_def within_plot_height_def)

text \<open>
  Claim C10, amended. For a non-empty series of counts that are not negative, with the
  maximum the code computes, the normalised value of every sample lies in \<open>[0, 1]\<close>;
  and when the height is at least twice the padding, the vertical position of every
  sample satisfies \<open>padding \<le> y \<le> height - padding\<close>.
\<close>

theorem y_within_plot:
  assumes "counts \<noteq> []" and "\<forall>c\<in>set counts. 0 \<le> c" and "c \<in> set counts"
  shows "(\<exists>v. norm_for_count (max_c_of counts) c = Inr v \<and> 0 \<le> v \<and> v \<le> 1)
         \<and> (padding * 2 \<le> height \<longrightarrow>
              (\<exists>y. y_for_count padding (height - padding * 2) (max_c_of counts) c = Inr y
                   \<and> within_plot_height padding height y))"
proof -
  have c0: "0 \<le> c" using assms by blast
  have cm: "c \<le> max_c_of counts" using assms(3) by (rule max_c_of_ge)
  obtain v where v: "norm_for_count (max_c_of counts) c = Inr v" "0 \<le> v" "v \<le> 1"
  proof (cases "20 < max_c_of counts")
    case True
    with c0 cm norm_log_range [of "max_c_of counts" c] that show ?thesis
      by (simp add: norm_for_count_def)
  next
    case False
    with c0 cm that show ?thesis
      by (cases "max_c_of counts = 0") (simp_all add: norm_for_count_def)
  qed
  have "within_plot_height padding height
          (real_of_int padding + (1 - v) * real_of_int (height - padding * 2))"
    if h: "padding * 2 \<le> height"
  proof -
    have ih: "0 \<le> real_of_int (height - padding * 2)" using h by simp
    have a: "0 \<le> (1 - v) * real_of_int (height - padding * 2)"
      using v ih by simp
    have "(1 - v) * real_of_int (height - padding * 2) \<le> 1 * real_of_int (height - padding * 2)"
      using v ih by (intro mult_right_mono) simp_all
    with a show ?thesis by (simp add: within_plot_height_def)
  qed
  with v show ?thesis by (simp add: y_for_count_def)
qed

theorem y_within_plot_witness:
  "[0, 100, 3] \<noteq> ([] :: int list) \<and> (3::int) \<in> set [0, 100, 3]
   \<and> 52 * 2 \<le> (360::int)
   \<and> (\<exists>v. norm_for_count (max_c_of [0, 100, 3]) 3 = Inr v \<and> 0 \<le> v \<and> v \<le> 1)
   \<and> (\<exists>y. y_for_count 52 (360 - 52 * 2) (max_c_of [0, 100, 3]) 3 = Inr y
           \<and> within_plot_height 52 360 y)"
  using y_within_plot [of "[0, 100, 3]" 3 52 360] by simp

section \<open>Properties of the horizontal layout\<close>

lemma collect_map_Inr:
  "(\<And>x. x \<in> set xs \<Longrightarrow> f x = Inr (g x)) \<Longrightarrow> collect (map f xs) = Inr (map g xs)"
  by (induction xs) simp_all

lemma py_truediv_index:
  "1 < n \<Longrightarrow> py_truediv (int i) (int n - 1) = Inr (real i / real (n - 1))"
  by (simp add: py_truediv_def of_nat_diff)

lemma x_positions_ok:
  assumes "1 < n"
  shows "x_positions padding inner_w n =
         Inr (map (\<lambda>i. real_of_int padding + (real i / real (n - 1)) * real_of_int inner_w)
                  [0..<n])"
  unfolding x_positions_def
  by (intro collect_map_Inr) (simp add: py_truediv_index [OF assms])

lemma x_positions_single: "x_positions padding inner_w 1 = Inl ZeroDivisionError"
  by (simp add: x_positions_def py_truediv_def)





section \<open>Properties of the month labels\<close>

lemma month_labels_loop_parsed:
  "map (\<lambda>d. fromisoformat L (date d)) ds = map Inr dts \<Longrightarrow>
   month_labels_loop L i ds acc = Inr (acc @ labels_of i dts)"
proof (induction ds arbitrary: i acc dts)
  case Nil
  then show ?case by (simp add: labels_of_def)
next
  case (Cons d ds)
  then obtain dt dts' where dts: "dts = dt # dts'" by (cases dts) auto
  with Cons.prems have p: "fromisoformat L (date d) = Inr dt"
    and rest: "map (\<lambda>d. fromisoformat L (date d)) ds = map Inr dts'" by simp_all
  show ?case
    using Cons.IH [OF rest] p
    by (simp add: dts labels_of_def quarter_start_def)
qed

lemma labels_of_mem:
  "(j, name) \<in> set (labels_of 0 dts) \<longleftrightarrow>
   j < length dts \<and> quarter_start (dts ! j) \<and> name = strftime_b (dts ! j)"
  by (auto simp: labels_of_def in_set_enumerate_eq)

lemma labels_of_sorted: "sorted_wrt (<) (map fst (labels_of i dts))"
proof -
  have "map fst (labels_of i dts) = map fst (filter (\<lambda>(j, d). quarter_start d) (enumerate i dts))"
    by (simp add: labels_of_def case_prod_unfold)
  moreover have "sorted_wrt (\<lambda>a b. fst a < fst b) (enumerate i dts)"
    using sorted_wrt_upt [of i "i + length dts"]
    by (simp only: sorted_wrt_map [symmetric] map_fst_enumerate)
  ultimately show ?thesis
    by (simp add: sorted_wrt_map sorted_wrt_filter)
qed

lemma labels_of_names:
  "map snd (labels_of i dts) = map strftime_b (filter quarter_start dts)"
  by (induction dts arbitrary: i) (simp_all add: labels_of_def)

lemma upt_1_13: "[1..<13] = [1, 2, 3, 4, 5, 6, 7, 8, 9, 10, 11, 12 :: nat]"
  by code_simp

lemma days_in_month_pos: "1 \<le> days_in_month y m"
  by (simp add: days_in_month_def)

lemma filter_quarter_month:
  "filter quarter_start (month_dates y m) =
     (if m = 1 \<or> m = 4 \<or> m = 7 \<or> m = 10 then [\<lparr>year = y, month = m, day = 1\<rparr>] else [])"
proof -
  obtain k where k: "days_in_month y m = Suc k"
    using days_in_month_pos [of y m] by (cases "days_in_month y m") auto
  have "[1..<Suc (Suc k)] = 1 # [2..<Suc (Suc k)]"
    by (simp add: upt_conv_Cons numeral_2_eq_2)
  moreover have "filter (\<lambda>d. d = 1) [2..<Suc (Suc k)] = []"
    by (auto simp: filter_empty_conv)
  ultimately show ?thesis
    by (auto simp: month_dates_def k filter_map comp_def quarter_start_def filter_empty_conv)
qed

lemma year_quarter_starts:
  "filter quarter_start (year_dates y) =
     [\<lparr>year = y, month = 1, day = 1\<rparr>, \<lparr>year = y, month = 4, day = 1\<rparr>,
      \<lparr>year = y, month = 7, day = 1\<rparr>, \<lparr>year = y, month = 10, day = 1\<rparr>]"
  unfolding year_dates_def upt_1_13 by (simp add: filter_quarter_month)

text \<open>
  Claim C5. For a series whose dates parse (to the dates \<open>dts\<close>), \<^verbatim>\<open>_month_labels\<close>
  returns a list of pairs of an index and a short month name, in which the pair
  \<open>(i, name)\<close> occurs if and only if \<open>i\<close> is the index of a sample whose date has day 1
  and month 1, 4, 7 or 10, \<open>name\<close> being the short name of that month; the indices are
  strictly increasing, that is, the pairs are in sample order; and for the dates of a
  full calendar year there are exactly 4 labels, Jan, Apr, Jul and Oct.
\<close>

theorem month_labels_quarter_starts:
  assumes "map (\<lambda>d. fromisoformat L (date d)) days = map Inr dts"
  shows "\<exists>labels. month_labels L days = Inr labels
           \<and> (\<forall>i name. (i, name) \<in> set labels \<longleftrightarrow>
                 i < length days \<and> day (dts ! i) = 1 \<and> month (dts ! i) \<in> {1, 4, 7, 10}
                 \<and> name = strftime_b (dts ! i))
           \<and> sorted_wrt (<) (map fst labels)
           \<and> (dts = year_dates y \<longrightarrow>
                length labels = 4 \<and> map snd labels = [''Jan'', ''Apr'', ''Jul'', ''Oct''])"
proof -
  have len: "length days = length dts"
    using assms by (metis length_map)
  have eq: "month_labels L days = Inr (labels_of 0 dts)"
    using month_labels_loop_parsed [OF assms, of 0 "[]"] by (simp add: month_labels_def)
  have mem: "\<forall>i name. (i, name) \<in> set (labels_of 0 dts) \<longleftrightarrow>
                 i < length days \<and> day (dts ! i) = 1 \<and> month (dts ! i) \<in> {1, 4, 7, 10}
                 \<and> name = strftime_b (dts ! i)"
    by (simp add: labels_of_mem len quarter_start_def)
  have names: "map snd (labels_of 0 (year_dates y)) = [''Jan'', ''Apr'', ''Jul'', ''Oct'']"
    by (simp add: labels_of_names year_quarter_starts strftime_b_def)
  then have "length (map snd (labels_of 0 (year_dates y))) = 4" by simp
  then have four: "length (labels_of 0 (year_dates y)) = 4" by simp
  show ?thesis
  proof (intro exI [of _ "labels_of 0 dts"] conjI impI)
    show "month_labels L days = Inr (labels_of 0 dts)" by (rule eq)
    show "\<forall>i name. (i, name) \<in> set (labels_of 0 dts) \<longleftrightarrow>
                 i < length days \<and> day (dts ! i) = 1 \<and> month (dts ! i) \<in> {1, 4, 7, 10}
                 \<and> name = strftime_b (dts ! i)" by (rule mem)
    show "sorted_wrt (<) (map fst (labels_of 0 dts))" by (rule labels_of_sorted)
    show "length (labels_of 0 dts) = 4" if "dts = year_dates y"
      using four that by simp
    show "map snd (labels_of 0 dts) = [''Jan'', ''Apr'', ''Jul'', ''Oct'']" if "dts = year_dates y"
      using names that by simp
  qed
qed

text \<open>
  The witness is the full calendar year 2023 as the data source delivers it, parsed by
  the concrete parser: formatting a valid date and parsing it back gives the date.
\<close>

lemma digit_char_code: "k < 10 \<Longrightarrow> (of_char (''0123456789'' ! k) :: nat) = 48 + k"
proof -
  assume "k < 10"
  then have "k = 0 \<or> k = 1 \<or> k = 2 \<or> k = 3 \<or> k = 4 \<or> k = 5 \<or> k = 6 \<or> k = 7 \<or> k = 8 \<or> k = 9"
    by arith
  then show ?thesis by (elim disjE) simp_all
qed

lemma digit_char_is_digit: "k < 10 \<Longrightarrow> is_digit (''0123456789'' ! k)"
  by (simp add: is_digit_def digit_char_code)

lemma number_of_two: 
  "a < 10 \<Longrightarrow> b < 10 \<Longrightarrow>
   number_of_digits [''0123456789'' ! a, ''0123456789'' ! b] = 10 * a + b"
  by (simp add: number_of_digits_def digit_char_code)

lemma number_of_four: 
  "a < 10 \<Longrightarrow> b < 10 \<Longrightarrow> c < 10 \<Longrightarrow> e < 10 \<Longrightarrow>
   number_of_digits [''0123456789'' ! a, ''0123456789'' ! b, ''0123456789'' ! c, ''0123456789'' ! e]
   = 10 * (10 * (10 * a + b) + c) + e"
  by (simp add: number_of_digits_def digit_char_code)

lemma two_digits:
  assumes "n < 100"
  shows "10 * (n div 10 mod 10) + n mod 10 = (n::nat)"
proof -
  have "n div 10 < 10" using assms by (simp add: less_mult_imp_div_less)
  then show ?thesis by simp
qed

lemma four_digits:
  assumes "n < 10000"
  shows "10 * (10 * (10 * (n div 1000 mod 10) + n div 100 mod 10) + n div 10 mod 10) + n mod 10
         = (n::nat)"
proof -
  define a where "a = n div 10"
  define b where "b = a div 10"
  define c where "c = b div 10"
  have n: "n = 10 * a + n mod 10" by (simp add: a_def)
  have a: "a = 10 * b + a mod 10" by (simp add: b_def)
  have b: "b = 10 * c + b mod 10" by (simp add: c_def)
  have c: "c < 10" using assms n a b by linarith
  have h: "n div 100 = b" by (simp add: a_def b_def div_mult2_eq [symmetric])
  have t: "n div 1000 = c" by (simp add: a_def b_def c_def div_mult2_eq [symmetric])
  have "10 * (10 * (10 * (c mod 10) + b mod 10) + a mod 10) + n mod 10 = n"
    using n a b c by simp
  then show ?thesis by (simp only: h t a_def [symmetric])
qed


lemma days_in_month_le: "days_in_month y m \<le> 31"
  by (simp add: days_in_month_def)

lemma iso_date_format:
  assumes "1 \<le> year d" "year d < 10000" "1 \<le> month d" "month d \<le> 12"
    and "1 \<le> day d" "day d \<le> days_in_month (year d) (month d)"
  shows "iso_date (iso_format d) = Inr d"
proof -
  have m: "month d < 100" using assms(4) by simp
  have dd: "day d < 100"
    using assms(6) days_in_month_le [of "year d" "month d"] by simp
  have py: "number_of_digits [''0123456789'' ! (year d div 1000 mod 10),
        ''0123456789'' ! (year d div 100 mod 10), ''0123456789'' ! (year d div 10 mod 10),
        ''0123456789'' ! (year d mod 10)] = year d"
    by (simp only: number_of_four [OF mod_less_divisor mod_less_divisor mod_less_divisor mod_less_divisor]
          four_digits [OF assms(2)] zero_less_numeral)
  have pm: "number_of_digits [''0123456789'' ! (month d div 10 mod 10),
        ''0123456789'' ! (month d mod 10)] = month d"
    by (simp only: number_of_two [OF mod_less_divisor mod_less_divisor] two_digits [OF m]
          zero_less_numeral)
  have pd: "number_of_digits [''0123456789'' ! (day d div 10 mod 10),
        ''0123456789'' ! (day d mod 10)] = day d"
    by (simp only: number_of_two [OF mod_less_divisor mod_less_divisor] two_digits [OF dd]
          zero_less_numeral)
  note parts = py pm pd
  have "iso_date (iso_format d) =
          (if 1 \<le> year d \<and> 1 \<le> month d \<and> month d \<le> 12 \<and> 1 \<le> day d
              \<and> day d \<le> days_in_month (year d) (month d)
           then Inr \<lparr>year = year d, month = month d, day = day d\<rparr> else Inl ValueError)"
    by (simp add: iso_date_def iso_format_def parts digit_char_is_digit Let_def)
  then show ?thesis using assms by simp
qed

lemma year_dates_valid:
  assumes "dt \<in> set (year_dates y)"
  shows "year dt = y \<and> 1 \<le> month dt \<and> month dt \<le> 12
         \<and> 1 \<le> day dt \<and> day dt \<le> days_in_month y (month dt)"
  using assms by (auto simp: year_dates_def month_dates_def)

lemma year_dates_parse:
  assumes "1 \<le> y" "y < 10000"
  shows "map (\<lambda>d. fromisoformat cpython (date d))
             (map (\<lambda>dt. \<lparr>date = iso_format dt, count = 0\<rparr>) (year_dates y))
         = map Inr (year_dates y)"
proof -
  have "iso_date (iso_format dt) = Inr dt" if "dt \<in> set (year_dates y)" for dt
    using year_dates_valid [OF that] assms by (intro iso_date_format) simp_all
  then show ?thesis by (simp add: cpython_def)
qed

theorem month_labels_quarter_starts_witness:
  "\<exists>labels. month_labels cpython
               (map (\<lambda>dt. \<lparr>date = iso_format dt, count = 0\<rparr>) (year_dates 2023)) = Inr labels
            \<and> sorted_wrt (<) (map fst labels)
            \<and> length labels = 4 \<and> map snd labels = [''Jan'', ''Apr'', ''Jul'', ''Oct'']"
proof -
  have "map (\<lambda>d. fromisoformat cpython (date d))
            (map (\<lambda>dt. \<lparr>date = iso_format dt, count = 0\<rparr>) (year_dates 2023))
        = map Inr (year_dates 2023)"
    by (rule year_dates_parse) simp_all
  from month_labels_quarter_starts [OF this, of 2023] show ?thesis by auto
qed

section \<open>Properties of the chart builder\<close>

lemma digits_chars: "set (digits n) \<subseteq> set ''0123456789''"
proof (induction n rule: digits.induct)
  case (1 n)
  have k: "''0123456789'' ! k \<in> set ''0123456789''" if "k < 10" for k
    using that by (intro nth_mem) simp
  show ?case
  proof (cases "n < 10")
    case True
    then show ?thesis using k [of n] by (subst digits.simps) simp
  next
    case False
    have "n mod 10 < 10" by simp
    with False 1 k [of "n mod 10"] show ?thesis by (subst digits.simps) simp
  qed
qed

lemma str_int_no_lt: "CHR ''<'' \<notin> set (str_int i)"
  using digits_chars [of "nat i"] digits_chars [of "nat (- i)"]
  by (auto simp: str_int_def)

lemma sublist_skip:
  "c \<notin> set ys \<Longrightarrow> sublist (c # p) (ys @ zs) \<longleftrightarrow> sublist (c # p) zs"
  by (induction ys) (simp_all add: sublist_Cons_right)

text \<open>
  Claim C2 asks that a series of a single sample be handled by an explicit rule, without
  a division fault. The code has no such rule: for every series of one sample, whatever
  the configuration, the list of positions divides \<open>0\<close> by \<open>n - 1 = 0\<close> and
  \<^verbatim>\<open>build_svg\<close> raises \<^verbatim>\<open>ZeroDivisionError\<close> before anything else is computed.
\<close>

theorem build_svg_single_sample:
  "build_svg L [d] width height padding bg stroke text = Inl ZeroDivisionError"
  by (simp add: build_svg_def Let_def x_positions_single [unfolded One_nat_def])

text \<open>
  Claim C3. For the empty series \<^verbatim>\<open>build_svg\<close> returns a document and raises nothing;
  the document is the opening tag, the background rectangle and the closing tag, in this
  order and with nothing between them. When the colour given for the background holds
  no \<open><\<close>, the document has no path, no text and no line element.
\<close>

theorem build_svg_empty:
  \<open>\<exists>out. build_svg L [] width height padding bg stroke text = Inr out
         \<and> out = ''<svg xmlns="http://www.w3.org/2000/svg" width="'' @ str_int width
                 @ ''" height="'' @ str_int height @ ''">''
                 @ ''<rect width="100%" height="100%" fill="'' @ bg @ ''"/>''
                 @ ''</svg>''
         \<and> (CHR ''<'' \<notin> set bg \<longrightarrow>
              \<not> sublist ''<path'' out \<and> \<not> sublist ''<text'' out \<and> \<not> sublist ''<line'' out)\<close>
  by (simp add: build_svg_def empty_svg_def sublist_Cons_right sublist_skip str_int_no_lt)

theorem build_svg_empty_witness:
  "\<exists>out. build_svg cpython [] 1200 360 52 BG STROKE TEXT = Inr out
         \<and> \<not> sublist ''<path'' out \<and> \<not> sublist ''<text'' out \<and> \<not> sublist ''<line'' out"
  using build_svg_empty [of cpython 1200 360 52 BG STROKE TEXT] by (simp add: BG_def)

lemma collect_Inr:
  "(\<And>r. r \<in> set rs \<Longrightarrow> \<exists>v. r = Inr v) \<Longrightarrow> \<exists>vs. collect rs = Inr vs"
proof (induction rs)
  case Nil
  show ?case by simp
next
  case (Cons r rs)
  obtain v where v: "r = Inr v" using Cons.prems [of r] by auto
  obtain vs where vs: "collect rs = Inr vs" using Cons by auto
  show ?case by (simp add: v vs)
qed

lemma y_for_count_total: "0 \<le> c \<Longrightarrow> \<exists>y. y_for_count padding inner_h max_c c = Inr y"
  by (simp add: y_for_count_def norm_for_count_def)

lemma labels_of_index: "il \<in> set (labels_of 0 dts) \<Longrightarrow> fst il < length dts"
  using labels_of_mem [of "fst il" "snd il" dts] by simp

lemma month_text_total:
  "fst il < length xs \<Longrightarrow> \<exists>t. month_text L height padding text xs il = Inr t"
  by (simp add: month_text_def py_index_def)

lemma join_prefix: "prefix s (join sep (s # ss))"
  by (cases ss) simp_all

lemma build_svg_Inr:
  assumes "days \<noteq> []"
    and "x_positions padding (width - padding * 2) (length days) = Inr xs"
    and "collect (map (y_for_count padding (height - padding * 2) (max_c_of (map count days)))
                      (map count days)) = Inr ys"
    and "month_labels L days = Inr labels"
    and "collect (map (month_text L height padding text xs) labels) = Inr label_texts"
  shows "build_svg L days width height padding bg stroke text =
         Inr (join [CHR 0x0A]
                (svg_open width height
                 # svg_head padding bg text (date (hd days)) (sum_list (map count days))
                   @ map (grid_line L width padding (height - padding * 2) text) [0..<6]
                   @ svg_paths (path_d L xs ys) stroke
                   @ label_texts
                   @ [max_text width padding text (max_c_of (map count days)), ''</svg>'']))"
proof (cases days)
  case Nil
  with assms(1) show ?thesis by simp
next
  case (Cons d0 rest)
  show ?thesis
    using assms(2-5) unfolding Cons build_svg_def by (simp add: Let_def)
qed


lemma str_int_defaults: "str_int 1200 = ''1200''" "str_int 360 = ''360''"
  by code_simp+

text \<open>
  Claim C8, as stated, fails on the empty series: the document returned for it, with
  the default configuration, holds neither a \<^verbatim>\<open>viewBox\<close> nor an \<^verbatim>\<open>aria-label\<close>.
\<close>

theorem empty_svg_no_viewbox_counterexample:
  "build_svg cpython [] 1200 360 52 BG STROKE TEXT = Inr (empty_svg 1200 360 BG)
   \<and> \<not> sublist ''viewBox'' (empty_svg 1200 360 BG)
   \<and> \<not> sublist ''aria-label'' (empty_svg 1200 360 BG)"
  by (simp add: build_svg_def empty_svg_def BG_def str_int_defaults sublist_Cons_right)

text \<open>
  Claim C8, amended. For a series that is empty or has at least two samples, with counts
  that are not negative and dates that parse, \<^verbatim>\<open>build_svg\<close> returns a document. For
  at least two samples it opens with the tag that declares the width, the height and
  the \<^verbatim>\<open>viewBox\<close> \<open>0 0 width height\<close> of the configuration, \<^verbatim>\<open>role="img"\<close> and the
  \<^verbatim>\<open>aria-label\<close> describing the chart; for the empty series it opens with the tag
  that declares the width and the height only.
\<close>

theorem build_svg_header:
  assumes "length days \<noteq> 1"
    and "\<forall>d\<in>set days. 0 \<le> count d"
    and "map (\<lambda>d. fromisoformat L (date d)) days = map Inr dts"
  shows \<open>\<exists>out. build_svg L days width height padding bg stroke text = Inr out
          \<and> (if days = []
              then prefix (''<svg xmlns="http://www.w3.org/2000/svg" width="'' @ str_int width
                           @ ''" height="'' @ str_int height @ ''">'') out
              else prefix (''<svg xmlns="http://www.w3.org/2000/svg" width="'' @ str_int width
                           @ ''" height="'' @ str_int height @ ''" ''
                           @ ''viewBox="0 0 '' @ str_int width @ '' '' @ str_int height
                           @ ''" role="img" aria-label="GitHub contributions line chart">'')
                     out)\<close>
proof (cases "days = []")
  case True
  then show ?thesis by (simp add: build_svg_def empty_svg_def)
next
  case False
  with assms(1) have n: "1 < length days" by (cases days) auto
  have len: "length dts = length days" using assms(3) by (metis length_map)
  define xs where
    "xs = map (\<lambda>i. real_of_int padding
                     + (real i / real (length days - 1)) * real_of_int (width - padding * 2))
              [0..<length days]"
  have xs: "x_positions padding (width - padding * 2) (length days) = Inr xs"
    unfolding xs_def using n by (rule x_positions_ok)
  have xlen: "length xs = length days" by (simp add: xs_def)
  have "\<exists>ys. collect (map (y_for_count padding (height - padding * 2)
                                 (max_c_of (map count days))) (map count days)) = Inr ys"
  proof (rule collect_Inr)
    fix r
    assume "r \<in> set (map (y_for_count padding (height - padding * 2)
                               (max_c_of (map count days))) (map count days))"
    then obtain d where d: "d \<in> set days"
      and r: "r = y_for_count padding (height - padding * 2) (max_c_of (map count days)) (count d)"
      by auto
    from d assms(2) have "0 \<le> count d" by blast
    then show "\<exists>v. r = Inr v" unfolding r by (rule y_for_count_total)
  qed
  then obtain ys where ys:
    "collect (map (y_for_count padding (height - padding * 2) (max_c_of (map count days)))
                  (map count days)) = Inr ys" ..
  have labels: "month_labels L days = Inr (labels_of 0 dts)"
    using month_labels_loop_parsed [OF assms(3), of 0 "[]"] by (simp add: month_labels_def)
  have "\<exists>ts. collect (map (month_text L height padding text xs) (labels_of 0 dts)) = Inr ts"
  proof (rule collect_Inr)
    fix r
    assume "r \<in> set (map (month_text L height padding text xs) (labels_of 0 dts))"
    then obtain il where il: "il \<in> set (labels_of 0 dts)"
      and r: "r = month_text L height padding text xs il" by auto
    from il have "fst il < length xs" using labels_of_index [of il dts] len xlen by simp
    then show "\<exists>v. r = Inr v" unfolding r by (rule month_text_total)
  qed
  then obtain label_texts where lts:
    "collect (map (month_text L height padding text xs) (labels_of 0 dts)) = Inr label_texts" ..
  show ?thesis
    using False
    by (simp add: build_svg_Inr [OF False xs ys labels lts] join_prefix svg_open_def)
qed

theorem build_svg_header_witness:
  \<open>\<exists>out. build_svg cpython
           [\<lparr>date = ''2024-01-01'', count = 5\<rparr>, \<lparr>date = ''2024-01-02'', count = 10\<rparr>,
            \<lparr>date = ''2024-01-03'', count = 20\<rparr>] 1200 360 52 BG STROKE TEXT = Inr out
         \<and> prefix (''<svg xmlns="http://www.w3.org/2000/svg" width="1200" height="360" ''
                    @ ''viewBox="0 0 1200 360" role="img" ''
                    @ ''aria-label="GitHub contributions line chart">'') out\<close>
proof -
  have p: "map (\<lambda>d. fromisoformat cpython (date d))
             [\<lparr>date = ''2024-01-01'', count = 5\<rparr>, \<lparr>date = ''2024-01-02'', count = 10\<rparr>,
              \<lparr>date = ''2024-01-03'', count = 20\<rparr>]
           = map Inr [\<lparr>year = 2024, month = 1, day = 1\<rparr>, \<lparr>year = 2024, month = 1, day = 2\<rparr>,
                      \<lparr>year = 2024, month = 1, day = 3\<rparr>]"
    by code_simp
  show ?thesis
    using build_svg_header [OF _ _ p, of 1200 360 52 BG STROKE TEXT] by (simp add: str_int_defaults)
qed

end
